theory Spec2Isabelle
  imports Main "HOL-Library.Word" "HOL-Library.Sublist"
begin

section \<open>The Ink lexer (pkg/ink/lexer.go)\<close>

subsection \<open>Token kinds and tokens\<close>

text \<open>The enumeration \<open>Kind\<close>, in the order of the source's \<open>iota\<close> block.\<close>

datatype Kind =
    Separator
  | UnaryExpr | BinaryExpr | MatchExpr | MatchClause
  | Identifier | EmptyIdentifier
  | FunctionCall
  | NumberLiteral | StringLiteral | ObjectLiteral | ListLiteral | FunctionLiteral
  | TrueLiteral | FalseLiteral
  | AccessorOp
  | EqualOp | FunctionArrow
  | KeyValueSeparator | DefineOp | MatchColon
  | CaseArrow | SubtractOp
  | NegationOp | AddOp | MultiplyOp | DivideOp | ModulusOp | GreaterThanOp | LessThanOp
  | LogicalAndOp | LogicalOrOp | LogicalXorOp
  | LeftParen | RightParen | LeftBracket | RightBracket | LeftBrace | RightBrace

text \<open>
  A rune is a Unicode code point. The input of the lexer is the sequence of runes that
  \<open>bufio.Reader.ReadRune\<close> delivers; a read past its end is the error that ends a loop.
  Go strings (\<open>buf\<close>, \<open>strbuf\<close>, \<open>Tok.str\<close>) are kept as the runes they were built from;
  their length in bytes, which the source takes with \<open>len\<close>, is computed by \<open>len\<close> below.
  A \<open>float64\<close> is its IEEE-754 bit pattern: the lexer stores such values and never
  computes with them. The zero value is the pattern \<open>0\<close>.
\<close>

type_synonym rune = nat
type_synonym float64 = "64 word"

record Tok =
  kind :: Kind
  str :: "rune list"
  num :: float64
  line :: int
  col :: int

definition runes :: "string \<Rightarrow> rune list" where
  "runes cs = map of_char cs"

abbreviation newline :: rune where "newline \<equiv> 10"
abbreviation quote :: rune where "quote \<equiv> 39"
abbreviation backslash :: rune where "backslash \<equiv> 92"
abbreviation backtick :: rune where "backtick \<equiv> 96"

subsection \<open>What the lexer uses of the Go library\<close>

text \<open>
  \<open>utf8len\<close> is the number of bytes of \<open>string(r)\<close>: one to four bytes by the size of the
  code point, and the three bytes of U+FFFD for a surrogate or a value past U+10FFFF.
  \<open>firstByte\<close> is the first of these bytes.
\<close>

definition utf8len :: "rune \<Rightarrow> nat" where
  "utf8len r =
     (if r < 0x80 then 1
      else if r < 0x800 then 2
      else if (0xD800 \<le> r \<and> r \<le> 0xDFFF) \<or> 0x10FFFF < r then 3
      else if r < 0x10000 then 3
      else 4)"

definition len :: "rune list \<Rightarrow> int" where
  "len cbuf = int (sum_list (map utf8len cbuf))"

definition firstByte :: "rune \<Rightarrow> nat" where
  "firstByte r =
     (if r < 0x80 then r
      else if r < 0x800 then 0xC0 + r div 0x40
      else if (0xD800 \<le> r \<and> r \<le> 0xDFFF) \<or> 0x10FFFF < r then 0xEF
      else if r < 0x10000 then 0xE0 + r div 0x1000
      else 0xF0 + r div 0x40000)"

text \<open>
  The library functions that the lexer calls and whose tables are not part of the
  repository are parameters: \<open>strconv.ParseFloat\<close> (the value and, on failure, the text of
  the error), and the parts of \<open>unicode.IsDigit\<close> and \<open>unicode.IsSpace\<close> beyond Latin-1.
  The two flags of \<open>Tokenize\<close> travel in the same record.
\<close>

record env =
  fatalError :: bool
  debugLexer :: bool
  ParseFloat :: "rune list \<Rightarrow> float64 \<times> string option"
  digitTable :: "rune \<Rightarrow> bool"
  spaceTable :: "rune \<Rightarrow> bool"

text \<open>Below U+0100 a digit is one of \<open>0\<close> to \<open>9\<close>, and the white space is the fixed list.\<close>

definition IsDigit :: "env \<Rightarrow> rune \<Rightarrow> bool" where
  "IsDigit e r = (if r \<le> 0xFF then 48 \<le> r \<and> r \<le> 57 else digitTable e r)"

definition IsSpace :: "env \<Rightarrow> rune \<Rightarrow> bool" where
  "IsSpace e r =
     (if r \<le> 0xFF then r \<in> {9, 10, 11, 12, 13, 32, 0x85, 0xA0} else spaceTable e r)"

text \<open>\<open>fmt\<close>'s \<open>%d\<close>.\<close>

function showNat :: "nat \<Rightarrow> string" where
  "showNat n =
     (if n < 10 then [''0123456789'' ! n]
      else showNat (n div 10) @ [''0123456789'' ! (n mod 10)])"
  by pat_completeness auto
termination
  by (relation "measure id") auto

declare showNat.simps [simp del]

definition showInt :: "int \<Rightarrow> string" where
  "showInt i = (if i < 0 then CHR ''-'' # showNat (nat (- i)) else showNat (nat i))"

subsection \<open>The logger\<close>

text \<open>
  Modelled from the spec: the logger (\<open>LogErr\<close>, \<open>LogSafeErr\<close>), the type \<open>Err\<close> and the
  reason \<open>ErrSyntax\<close> are declared in files of the repository other than lexer.go.
  The spec (sections 6 and 7) gives the logger two operations that take a reason code
  and a message: one reports a fatal error and terminates the process, the other reports
  a recoverable error and returns. A report is an entry of the list \<open>diagnostics\<close>;
  termination is the flag \<open>halted\<close>, after which the process emits and reports nothing.
\<close>

datatype reason = ErrSyntax

datatype report = Fatal reason string | Safe reason string

subsection \<open>The state of a scan\<close>

text \<open>
  The local variables of \<open>Tokenize\<close> that its closures share, the tokens sent to the channel
  so far (oldest first), the tokens written to the debug log, and the logger's reports.
\<close>

record lexer =
  buf :: "rune list"
  strbuf :: "rune list"
  strbufStartLine :: int
  strbufStartCol :: int
  lastKind :: Kind
  lineNo :: int
  colNo :: int
  inStringLiteral :: bool
  tokens :: "Tok list"
  debugLog :: "Tok list"
  diagnostics :: "report list"
  halted :: bool

definition LogErr :: "reason \<Rightarrow> string \<Rightarrow> lexer \<Rightarrow> lexer" where
  "LogErr r m s =
     (if halted s then s else s\<lparr>diagnostics := diagnostics s @ [Fatal r m], halted := True\<rparr>)"

definition LogSafeErr :: "reason \<Rightarrow> string \<Rightarrow> lexer \<Rightarrow> lexer" where
  "LogSafeErr r m s =
     (if halted s then s else s\<lparr>diagnostics := diagnostics s @ [Safe r m]\<rparr>)"

subsection \<open>The closures of Tokenize\<close>

text \<open>
  Each closure is a function from the state to the state. A halted process does nothing
  more: \<open>simpleCommit\<close>, the one place where a token is sent, leaves a halted state as
  it is.
\<close>

text \<open>
  \<open>if debugLexer { LogDebug("lex ->", tok.String()) }\<close>: the debug log receives the token
  when the flag is set. The log keeps the token itself, not its rendering by \<open>String\<close>.
\<close>

definition debugTrace :: "env \<Rightarrow> Tok \<Rightarrow> Tok list \<Rightarrow> Tok list" where
  "debugTrace e tok log = (if debugLexer e then log @ [tok] else log)"

definition simpleCommit :: "env \<Rightarrow> Tok \<Rightarrow> lexer \<Rightarrow> lexer" where
  "simpleCommit e tok s =
     (if halted s then s
      else s\<lparr>lastKind := kind tok,
             debugLog := debugTrace e tok (debugLog s),
             tokens := tokens s @ [tok]\<rparr>)"

definition simpleCommitChar :: "env \<Rightarrow> Kind \<Rightarrow> lexer \<Rightarrow> lexer" where
  "simpleCommitChar e k s =
     simpleCommit e \<lparr>kind = k, str = [], num = 0, line = lineNo s, col = colNo s\<rparr> s"

definition numberError :: "lexer \<Rightarrow> string \<Rightarrow> string" where
  "numberError s msg =
     ''parsing error in number at '' @ showInt (lineNo s) @ '':'' @ showInt (colNo s)
       @ '', '' @ msg"

definition commitClear :: "env \<Rightarrow> lexer \<Rightarrow> lexer" where
  "commitClear e s =
     (case buf s of
        [] \<Rightarrow> s
      | c # cs \<Rightarrow>
          (let cbuf = buf s; s1 = s\<lparr>buf := []\<rparr> in
           if cbuf = runes ''true'' then simpleCommitChar e TrueLiteral s1
           else if cbuf = runes ''false'' then simpleCommitChar e FalseLiteral s1
           else if 48 \<le> firstByte c \<and> firstByte c \<le> 57 then
             (case ParseFloat e cbuf of
                (f, err) \<Rightarrow>
                  simpleCommit e
                    \<lparr>kind = NumberLiteral, str = [], num = f,
                     line = lineNo s, col = colNo s - len cbuf\<rparr>
                    (case err of
                       None \<Rightarrow> s1
                     | Some msg \<Rightarrow>
                         (if fatalError e then LogErr ErrSyntax (numberError s msg) s1
                          else LogSafeErr ErrSyntax (numberError s msg) s1)))
           else
             simpleCommit e
               \<lparr>kind = Identifier, str = cbuf, num = 0,
                line = lineNo s, col = colNo s - len cbuf\<rparr> s1))"

definition commit :: "env \<Rightarrow> Tok \<Rightarrow> lexer \<Rightarrow> lexer" where
  "commit e tok s = simpleCommit e tok (commitClear e s)"

definition commitChar :: "env \<Rightarrow> Kind \<Rightarrow> lexer \<Rightarrow> lexer" where
  "commitChar e k s =
     commit e \<lparr>kind = k, str = [], num = 0, line = lineNo s, col = colNo s\<rparr> s"

definition continuation :: "Kind \<Rightarrow> bool" where
  "continuation k =
     (k \<in> {Separator, LeftParen, LeftBracket, LeftBrace,
            AddOp, SubtractOp, MultiplyOp, DivideOp, ModulusOp, NegationOp,
            GreaterThanOp, LessThanOp, EqualOp, DefineOp, AccessorOp,
            KeyValueSeparator, FunctionArrow, MatchColon, CaseArrow})"

definition ensureSeparator :: "env \<Rightarrow> lexer \<Rightarrow> lexer" where
  "ensureSeparator e s =
     (let s1 = commitClear e s in
      if continuation (lastKind s1) then s1 else commitChar e Separator s1)"

subsection \<open>The inner loops\<close>

text \<open>
  \<open>for nextChar != '\n'\<close>: read runes up to and including the next newline, or to the end
  of the input. Both uses enter the loop with a \<open>nextChar\<close> that is not a newline.
\<close>

fun skipLine :: "rune list \<Rightarrow> rune list" where
  "skipLine [] = []"
| "skipLine (c # cs) = (if c = newline then cs else skipLine cs)"

text \<open>
  \<open>for nextChar != '`'\<close>: the body of a block comment. Each rune read advances the column,
  a newline first advances the line; the loop ends after the closing backtick or at the
  end of the input.
\<close>

fun blockComment :: "lexer \<Rightarrow> rune list \<Rightarrow> lexer \<times> rune list" where
  "blockComment s [] = (s, [])"
| "blockComment s (c # cs) =
     (let s1 = (if c = newline then s\<lparr>lineNo := lineNo s + 1, colNo := 0\<rparr> else s);
          s2 = s1\<lparr>colNo := colNo s1 + 1\<rparr>
      in if c = backtick then (s2, cs) else blockComment s2 cs)"

subsection \<open>One iteration of the main loop\<close>

text \<open>
  \<open>step e s char rest\<close> is the \<open>switch\<close> of the main loop on the rune \<open>char\<close> just read, with
  \<open>rest\<close> the input after it; it returns the state and the input left for the next
  iteration. A \<open>break\<close> directly inside a case leaves the \<open>switch\<close>, not the loop.
  \<open>UnreadRune\<close> is the branch that returns \<open>rest\<close> whole.
\<close>

definition step :: "env \<Rightarrow> lexer \<Rightarrow> rune \<Rightarrow> rune list \<Rightarrow> lexer \<times> rune list" where
  "step e s char rest =
     (if char = quote then
        (let s1 =
           (if inStringLiteral s then
              commit e \<lparr>kind = StringLiteral, str = strbuf s, num = 0,
                        line = strbufStartLine s, col = strbufStartCol s\<rparr> s
            else s\<lparr>strbuf := [], strbufStartLine := lineNo s, strbufStartCol := colNo s\<rparr>)
         in (s1\<lparr>inStringLiteral := \<not> inStringLiteral s\<rparr>, rest))
      else if inStringLiteral s then
        (if char = newline then
           (s\<lparr>lineNo := lineNo s + 1, colNo := 0, strbuf := strbuf s @ [char]\<rparr>, rest)
         else if char = backslash then
           (case rest of
              [] \<Rightarrow> (s, [])
            | c # cs \<Rightarrow> (s\<lparr>strbuf := strbuf s @ [c], colNo := colNo s + 1\<rparr>, cs))
         else (s\<lparr>strbuf := strbuf s @ [char]\<rparr>, rest))
      else if char = backtick then
        (case rest of
           [] \<Rightarrow> (s, [])
         | nextChar # cs \<Rightarrow>
             (if nextChar = backtick then
                (let s1 = ensureSeparator e s
                 in (s1\<lparr>lineNo := lineNo s1 + 1, colNo := 0\<rparr>, skipLine cs))
              else blockComment s cs))
      else if char = newline then
        (let s1 = ensureSeparator e s in (s1\<lparr>lineNo := lineNo s1 + 1, colNo := 0\<rparr>, rest))
      else if IsSpace e char then (commitClear e s, rest)
      else if char = of_char CHR ''_'' then (commitChar e EmptyIdentifier s, rest)
      else if char = of_char CHR ''~'' then (commitChar e NegationOp s, rest)
      else if char = of_char CHR ''+'' then (commitChar e AddOp s, rest)
      else if char = of_char CHR ''*'' then (commitChar e MultiplyOp s, rest)
      else if char = of_char CHR ''/'' then (commitChar e DivideOp s, rest)
      else if char = of_char CHR ''%'' then (commitChar e ModulusOp s, rest)
      else if char = of_char CHR ''&'' then (commitChar e LogicalAndOp s, rest)
      else if char = of_char CHR ''|'' then (commitChar e LogicalOrOp s, rest)
      else if char = of_char CHR ''^'' then (commitChar e LogicalXorOp s, rest)
      else if char = of_char CHR ''<'' then (commitChar e LessThanOp s, rest)
      else if char = of_char CHR ''>'' then (commitChar e GreaterThanOp s, rest)
      else if char = of_char CHR '','' then (commitChar e Separator s, rest)
      else if char = of_char CHR ''.'' then
        (if list_ex (\<lambda>d. \<not> IsDigit e d) (buf s) then (commitChar e AccessorOp s, rest)
         else if buf s = [] then (commitChar e AccessorOp s, rest)
         else (s\<lparr>buf := buf s @ [of_char CHR ''.'']\<rparr>, rest))
      else if char = of_char CHR '':'' then
        (case rest of
           [] \<Rightarrow> (s, [])
         | nextChar # cs \<Rightarrow>
             (let s1 = s\<lparr>colNo := colNo s + 1\<rparr> in
              if nextChar = of_char CHR ''='' then (commitChar e DefineOp s1, cs)
              else if nextChar = of_char CHR '':'' then (commitChar e MatchColon s1, cs)
              else (commitChar e KeyValueSeparator (ensureSeparator e s1), rest)))
      else if char = of_char CHR ''='' then
        (case rest of
           [] \<Rightarrow> (s, [])
         | nextChar # cs \<Rightarrow>
             (let s1 = s\<lparr>colNo := colNo s + 1\<rparr> in
              if nextChar = of_char CHR ''>'' then (commitChar e FunctionArrow s1, cs)
              else (commitChar e EqualOp s1, rest)))
      else if char = of_char CHR ''-'' then
        (case rest of
           [] \<Rightarrow> (s, [])
         | nextChar # cs \<Rightarrow>
             (let s1 = s\<lparr>colNo := colNo s + 1\<rparr> in
              if nextChar = of_char CHR ''>'' then (commitChar e CaseArrow s1, cs)
              else (commitChar e SubtractOp s1, rest)))
      else if char = of_char CHR ''('' then (commitChar e LeftParen s, rest)
      else if char = of_char CHR '')'' then (commitChar e RightParen (ensureSeparator e s), rest)
      else if char = of_char CHR ''['' then (commitChar e LeftBracket s, rest)
      else if char = of_char CHR '']'' then (commitChar e RightBracket (ensureSeparator e s), rest)
      else if char = of_char CHR ''{'' then (commitChar e LeftBrace s, rest)
      else if char = of_char CHR ''}'' then (commitChar e RightBrace (ensureSeparator e s), rest)
      else (s\<lparr>buf := buf s @ [char]\<rparr>, rest))"

lemma skipLine_length: "length (skipLine cs) \<le> length cs"
  by (induction cs) auto

lemma blockComment_length: "length (snd (blockComment s cs)) \<le> length cs"
  by (induction cs arbitrary: s) (auto simp: Let_def le_SucI)

lemma step_length: "length (snd (step e s char rest)) \<le> length rest"
  using skipLine_length [of "tl rest"] blockComment_length [of s "tl rest"]
  by (auto simp: step_def Let_def le_SucI split: list.splits)

subsection \<open>The main loop and Tokenize\<close>

text \<open>
  The main loop reads a rune, runs the \<open>switch\<close>, advances the column, and ends when the
  read fails. Every iteration consumes at least the rune it read.
\<close>

function mainLoop :: "env \<Rightarrow> lexer \<Rightarrow> rune list \<Rightarrow> lexer" where
  "mainLoop e s [] = s"
| "mainLoop e s (char # rest) =
     (case step e s char rest of
        (s1, rest1) \<Rightarrow> mainLoop e (s1\<lparr>colNo := colNo s1 + 1\<rparr>) rest1)"
  by pat_completeness auto
termination
proof (relation "measure (\<lambda>(e, s, input). length input)")
  show "wf (measure (\<lambda>(e, s, input). length input))" by simp
next
  fix e :: env and s :: lexer and char :: rune and rest x1 x2
  assume "(x1, x2) = step e s char rest"
  then have "x2 = snd (step e s char rest)" by (metis snd_conv)
  then have "length x2 \<le> length rest" by (simp add: step_length)
  then show "((e, x1\<lparr>colNo := colNo x1 + 1\<rparr>, x2), (e, s, char # rest))
             \<in> measure (\<lambda>(e, s, input). length input)"
    by simp
qed

definition initial :: lexer where
  "initial =
     \<lparr>buf = [], strbuf = [], strbufStartLine = 0, strbufStartCol = 0,
      lastKind = Separator, lineNo = 1, colNo = 1, inStringLiteral = False,
      tokens = [], debugLog = [], diagnostics = [], halted = False\<rparr>"

text \<open>
  \<open>Peek(2)\<close> looks at the first two bytes without consuming them. The bytes \<open>#\<close> and \<open>!\<close>
  are ASCII, so they are the first two bytes exactly when they are the first two runes.
  The shebang loop starts with \<open>nextChar\<close> zero and therefore reads from the \<open>#\<close> on.
\<close>

definition Tokenize :: "env \<Rightarrow> rune list \<Rightarrow> lexer" where
  "Tokenize e input =
     (if take 2 input = runes ''#!''
      then ensureSeparator e (mainLoop e (initial\<lparr>lineNo := lineNo initial + 1\<rparr>) (skipLine input))
      else ensureSeparator e (mainLoop e initial input))"

subsection \<open>An environment for the examples\<close>

text \<open>
  \<open>sampleEnv\<close> runs the lexer as \<open>Tokenize(input, tokens, false, false)\<close>. Its
  \<open>ParseFloat\<close> answers as Go's does on the three literals of the examples (\<open>1\<close>, \<open>1.2\<close> and
  \<open>3\<close>, as IEEE-754 bit patterns); for every other text it returns zero and the error that
  Go reports for the malformed text \<open>1x\<close>, the only such text the examples use. No rune
  beyond Latin-1 is a digit or a space.
\<close>

definition sampleEnv :: env where
  "sampleEnv =
     \<lparr>fatalError = False, debugLexer = False,
      ParseFloat = (\<lambda>cbuf.
        if cbuf = runes ''1'' then (0x3FF0000000000000, None)
        else if cbuf = runes ''1.2'' then (0x3FF3333333333333, None)
        else if cbuf = runes ''3'' then (0x4008000000000000, None)
        else (0, Some (''strconv.ParseFloat: parsing '' @ [CHR 0x22] @ ''1x''
                        @ [CHR 0x22] @ '': invalid syntax''))),
      digitTable = (\<lambda>r. False), spaceTable = (\<lambda>r. False)\<rparr>"

text \<open>What a token stream shows once positions are disregarded.\<close>

definition content :: "Tok \<Rightarrow> Kind \<times> rune list \<times> float64" where
  "content t = (kind t, str t, num t)"

definition located :: "Tok \<Rightarrow> Kind \<times> rune list \<times> int \<times> int" where
  "located t = (kind t, str t, line t, col t)"

subsection \<open>Measures and invariants of the properties\<close>

text \<open>
  \<open>sepPairs ks\<close> counts the places where a Separator directly follows a Separator in a
  sequence of kinds; it is zero exactly when no two consecutive kinds are both Separator.
\<close>

fun sepPairs :: "Kind list \<Rightarrow> nat" where
  "sepPairs (a # b # ks) = (if a = Separator \<and> b = Separator then 1 else 0) + sepPairs (b # ks)"
| "sepPairs ks = 0"

abbreviation comma :: rune where "comma \<equiv> 44"

text \<open>
  The positions of the runes of an input: lines and columns count from 1 and a newline is
  the last rune of its line. A token points at a rune when its position is one of these.
  A sequence of positions is nondecreasing when each is at or after the one before it, by
  line and then by column.
\<close>

fun runePositions :: "int \<Rightarrow> int \<Rightarrow> rune list \<Rightarrow> (int \<times> int) list" where
  "runePositions l c [] = []"
| "runePositions l c (r # rs) =
     (l, c) # (if r = newline then runePositions (l + 1) 1 rs else runePositions l (c + 1) rs)"

definition pointsAtRune :: "rune list \<Rightarrow> Tok \<Rightarrow> bool" where
  "pointsAtRune input t = ((line t, col t) \<in> set (runePositions 1 1 input))"

fun nondecreasing :: "(int \<times> int) list \<Rightarrow> bool" where
  "nondecreasing (p # q # ps) =
     ((fst p < fst q \<or> (fst p = fst q \<and> snd p \<le> snd q)) \<and> nondecreasing (q # ps))"
| "nondecreasing ps = True"

definition positions :: "Tok list \<Rightarrow> (int \<times> int) list" where
  "positions ts = map (\<lambda>t. (line t, col t)) ts"

text \<open>
  The invariant behind the separator policy: \<open>lastKind\<close> is the kind of the last token sent
  (Separator before the first), and the stream so far, read after an imagined leading
  Separator, has at most \<open>n\<close> Separators that follow a Separator.
\<close>

definition sepBound :: "nat \<Rightarrow> lexer \<Rightarrow> bool" where
  "sepBound n s =
     (lastKind s = last (Separator # map kind (tokens s))
      \<and> sepPairs (Separator # map kind (tokens s)) \<le> n)"

text \<open>
  \<open>lastKindOK\<close> is the first half of that invariant alone. \<open>noNewPair s s'\<close> says that \<open>s'\<close>
  has sent the tokens of \<open>s\<close> and possibly more after them, and that no Separator among the
  new ones directly follows a Separator (or starts the stream): the count of such places,
  taken after the imagined leading Separator, is the same. \<open>quiet\<close> joins the two.
\<close>

definition lastKindOK :: "lexer \<Rightarrow> bool" where
  "lastKindOK s = (lastKind s = last (Separator # map kind (tokens s)))"

definition noNewPair :: "lexer \<Rightarrow> lexer \<Rightarrow> bool" where
  "noNewPair s s' =
     (prefix (tokens s) (tokens s')
      \<and> sepPairs (Separator # map kind (tokens s')) = sepPairs (Separator # map kind (tokens s)))"

definition quiet :: "lexer \<Rightarrow> lexer \<Rightarrow> bool" where
  "quiet s s' = (lastKindOK s' \<and> noNewPair s s')"

text \<open>
  The invariant behind the error policy. A report is a failed number when it is the
  syntax error \<open>parsing error in number at l:c, msg\<close> for a text \<open>cbuf\<close> that starts with a
  digit, is neither \<open>true\<close> nor \<open>false\<close>, and that the float parser rejected with the message
  \<open>msg\<close> and the value \<open>f\<close>; it is fatal exactly when \<open>fatalError\<close> is set, and without
  that flag the NumberLiteral carrying \<open>f\<close>, placed at line \<open>l\<close> and column \<open>c - len cbuf\<close>,
  is among the tokens sent. Every report of a scan is a failed number, and without
  \<open>fatalError\<close> the process is never halted.
\<close>

definition failedNumber :: "env \<Rightarrow> Tok list \<Rightarrow> report \<Rightarrow> bool" where
  "failedNumber e toks r =
     (\<exists>l c cbuf f msg.
        cbuf \<noteq> [] \<and> 48 \<le> hd cbuf \<and> hd cbuf \<le> 57
        \<and> cbuf \<noteq> runes ''true'' \<and> cbuf \<noteq> runes ''false''
        \<and> ParseFloat e cbuf = (f, Some msg)
        \<and> r = (if fatalError e then Fatal else Safe) ErrSyntax
                (''parsing error in number at '' @ showInt l @ '':'' @ showInt c @ '', '' @ msg)
        \<and> (fatalError e \<or>
             \<lparr>kind = NumberLiteral, str = [], num = f, line = l, col = c - len cbuf\<rparr>
               \<in> set toks))"

definition numberErrorsOnly :: "env \<Rightarrow> lexer \<Rightarrow> bool" where
  "numberErrorsOnly e s =
     (list_all (failedNumber e (tokens s)) (diagnostics s) \<and> (fatalError e \<or> \<not> halted s))"

section \<open>Properties\<close>

lemmas lexer_eval =
  Tokenize_def runes_def step_def initial_def ensureSeparator_def commitClear_def
  commitChar_def commit_def simpleCommit_def simpleCommitChar_def continuation_def
  IsSpace_def IsDigit_def firstByte_def len_def utf8len_def Let_def content_def located_def

subsection \<open>Scenario D: a function with an arrow\<close>

text \<open>
  C1. The spec gives for \<open>f := (x) => x + 1\<close> a stream in which the synthesized Separator
  follows RightParen. The closing parenthesis runs \<open>ensureSeparator\<close> first and emits
  RightParen after it, so the stream is not the one claimed.
\<close>

theorem function_arrow_claimed_stream_refuted:
  "map kind (tokens (Tokenize sampleEnv (runes ''f := (x) => x + 1''))) \<noteq>
     [Identifier, DefineOp, LeftParen, Identifier, RightParen, Separator, FunctionArrow,
      Identifier, AddOp, NumberLiteral, Separator]"
  by (simp add: lexer_eval sampleEnv_def)

text \<open>
  C1, amended. Whenever the float parser reads the text \<open>1\<close> as the number one, the input
  \<open>f := (x) => x + 1\<close> yields Identifier f, DefineOp, LeftParen, Identifier x, Separator,
  RightParen, FunctionArrow, Identifier x, AddOp, NumberLiteral 1, Separator: the
  synthesized Separator comes before RightParen.
\<close>

theorem function_arrow_stream:
  assumes "ParseFloat e (runes ''1'') = (0x3FF0000000000000, None)"
  shows "map content (tokens (Tokenize e (runes ''f := (x) => x + 1''))) =
     [(Identifier, runes ''f'', 0), (DefineOp, [], 0), (LeftParen, [], 0),
      (Identifier, runes ''x'', 0), (Separator, [], 0), (RightParen, [], 0),
      (FunctionArrow, [], 0), (Identifier, runes ''x'', 0), (AddOp, [], 0),
      (NumberLiteral, [], 0x3FF0000000000000), (Separator, [], 0)]"
  using assms by (simp add: lexer_eval)

theorem function_arrow_stream_witness:
  "ParseFloat sampleEnv (runes ''1'') = (0x3FF0000000000000, None) \<and>
   map content (tokens (Tokenize sampleEnv (runes ''f := (x) => x + 1''))) =
     [(Identifier, runes ''f'', 0), (DefineOp, [], 0), (LeftParen, [], 0),
      (Identifier, runes ''x'', 0), (Separator, [], 0), (RightParen, [], 0),
      (FunctionArrow, [], 0), (Identifier, runes ''x'', 0), (AddOp, [], 0),
      (NumberLiteral, [], 0x3FF0000000000000), (Separator, [], 0)]"
proof -
  have h: "ParseFloat sampleEnv (runes ''1'') = (0x3FF0000000000000, None)"
    by (simp add: sampleEnv_def)
  show ?thesis using h function_arrow_stream [OF h] by simp
qed

subsection \<open>Backslash inside a string literal\<close>

text \<open>
  C7. Inside a string literal a backslash makes the lexer read the next rune and append it
  to \<open>strbuf\<close> as it is, whatever it is, with one extra column; the input quote, h, i,
  backslash, n, quote is the StringLiteral \<open>hin\<close> followed by a Separator.
\<close>

theorem backslash_takes_next_rune:
  "(inStringLiteral s \<longrightarrow>
      step e s backslash (c # cs) = (s\<lparr>strbuf := strbuf s @ [c], colNo := colNo s + 1\<rparr>, cs))
   \<and> map content (tokens (Tokenize e (quote # runes ''hi'' @ backslash # runes ''n'' @ [quote]))) =
       [(StringLiteral, runes ''hin'', 0), (Separator, [], 0)]"
  by (simp add: lexer_eval)

theorem backslash_takes_next_rune_witness:
  "inStringLiteral (initial\<lparr>inStringLiteral := True\<rparr>) \<and>
   step sampleEnv (initial\<lparr>inStringLiteral := True\<rparr>) backslash [quote] =
     (initial\<lparr>inStringLiteral := True, strbuf := [quote], colNo := 2\<rparr>, [])"
  using backslash_takes_next_rune [of "initial\<lparr>inStringLiteral := True\<rparr>" sampleEnv quote "[]"]
  by (simp add: initial_def)

subsection \<open>The shebang line\<close>

lemma skipLine_upto_newline: "newline \<notin> set pre \<Longrightarrow> skipLine (pre @ newline # rest) = rest"
  by (induction pre) auto

lemma skipLine_no_newline: "newline \<notin> set cs \<Longrightarrow> skipLine cs = []"
  by (induction cs) auto

text \<open>
  C8. When the input starts with \<open>#!\<close> the lexer reads up to and including the first
  newline before the main loop and starts the scan on line 2 with no token emitted (an
  input with no newline is read to its end and yields no token at all); when it does not,
  the main loop starts on the whole input at line 1. The script header followed by \<open>x\<close>
  yields Identifier \<open>x\<close> and a Separator, both on line 2.
\<close>

theorem shebang_line_discarded:
  "(take 2 input = runes ''#!'' \<and> input = pre @ newline # rest \<and> newline \<notin> set pre \<longrightarrow>
      Tokenize e input = ensureSeparator e (mainLoop e (initial\<lparr>lineNo := 2\<rparr>) rest))
   \<and> (take 2 input = runes ''#!'' \<and> newline \<notin> set input \<longrightarrow> tokens (Tokenize e input) = [])
   \<and> (take 2 input \<noteq> runes ''#!'' \<longrightarrow>
      Tokenize e input = ensureSeparator e (mainLoop e initial input))
   \<and> map located (tokens (Tokenize e (runes ''#!/usr/bin/env ink'' @ newline # runes ''x''))) =
       [(Identifier, runes ''x'', 2, 1), (Separator, [], 2, 2)]"
proof (intro conjI impI)
  assume a: "take 2 input = runes ''#!'' \<and> input = pre @ newline # rest \<and> newline \<notin> set pre"
  then have h: "skipLine input = rest" by (simp add: skipLine_upto_newline)
  from a have t: "take 2 input = runes ''#!''" by blast
  from t h show "Tokenize e input = ensureSeparator e (mainLoop e (initial\<lparr>lineNo := 2\<rparr>) rest)"
    by (simp add: Tokenize_def initial_def)
next
  assume a: "take 2 input = runes ''#!'' \<and> newline \<notin> set input"
  then have "skipLine input = []" by (simp add: skipLine_no_newline)
  with a show "tokens (Tokenize e input) = []"
    by (simp add: Tokenize_def ensureSeparator_def commitClear_def continuation_def initial_def)
next
  assume "take 2 input \<noteq> runes ''#!''"
  then show "Tokenize e input = ensureSeparator e (mainLoop e initial input)"
    by (simp add: Tokenize_def)
next
  show "map located (tokens (Tokenize e (runes ''#!/usr/bin/env ink'' @ newline # runes ''x''))) =
       [(Identifier, runes ''x'', 2, 1), (Separator, [], 2, 2)]"
    by (simp add: lexer_eval)
qed

theorem shebang_line_discarded_witness:
  "take 2 (runes ''#!a'' @ newline # runes ''x'') = runes ''#!''
   \<and> newline \<notin> set (runes ''#!a'')
   \<and> Tokenize sampleEnv (runes ''#!a'' @ newline # runes ''x'') =
       ensureSeparator sampleEnv (mainLoop sampleEnv (initial\<lparr>lineNo := 2\<rparr>) (runes ''x''))
   \<and> take 2 (runes ''#!a'') = runes ''#!'' \<and> tokens (Tokenize sampleEnv (runes ''#!a'')) = []
   \<and> take 2 (runes ''x'') \<noteq> runes ''#!''
   \<and> Tokenize sampleEnv (runes ''x'') = ensureSeparator sampleEnv (mainLoop sampleEnv initial (runes ''x''))"
  using shebang_line_discarded [where input = "runes ''#!a'' @ newline # runes ''x''"
          and pre = "runes ''#!a''" and rest = "runes ''x''" and e = sampleEnv]
        shebang_line_discarded [where input = "runes ''#!a''" and e = sampleEnv]
        shebang_line_discarded [where input = "runes ''x''" and e = sampleEnv]
  by (simp add: runes_def)

subsection \<open>Comments\<close>

lemma blockComment_fields: "\<exists>l k. fst (blockComment s cs) = s\<lparr>lineNo := l, colNo := k\<rparr>"
proof (induction cs arbitrary: s)
  case Nil
  have "s = s\<lparr>lineNo := lineNo s, colNo := colNo s\<rparr>" by simp
  then have "fst (blockComment s []) = s\<lparr>lineNo := lineNo s, colNo := colNo s\<rparr>" by simp
  then show ?case by blast
next
  case (Cons c cs)
  define s2 where
    "s2 = (let s1 = (if c = newline then s\<lparr>lineNo := lineNo s + 1, colNo := 0\<rparr> else s)
           in s1\<lparr>colNo := colNo s1 + 1\<rparr>)"
  have e2: "s2 = s\<lparr>lineNo := lineNo s2, colNo := colNo s2\<rparr>"
    by (simp add: s2_def Let_def)
  obtain l k where "fst (blockComment s2 cs) = s2\<lparr>lineNo := l, colNo := k\<rparr>"
    using Cons.IH [of s2] by blast
  then have r: "fst (blockComment s2 cs) = s\<lparr>lineNo := l, colNo := k\<rparr>"
    by (subst (asm) (2) e2) simp
  have u: "blockComment s (c # cs) = (if c = backtick then (s2, cs) else blockComment s2 cs)"
    by (simp add: s2_def Let_def)
  show ?case
  proof (cases "c = backtick")
    case True
    with u have "fst (blockComment s (c # cs)) = s2" by simp
    with e2 show ?thesis by metis
  next
    case False
    with u r have "fst (blockComment s (c # cs)) = s\<lparr>lineNo := l, colNo := k\<rparr>" by simp
    then show ?thesis by blast
  qed
qed

lemma blockComment_closed:
  "backtick \<notin> set body \<Longrightarrow> snd (blockComment s (body @ backtick # rest)) = rest"
  by (induction body arbitrary: s) (auto simp: Let_def)

text \<open>
  C9. A block comment (a backtick, a rune other than a backtick, then everything up to the
  next backtick) is consumed whole and leaves the token stream and \<open>lastKind\<close> as they
  were; a single-line comment (two backticks, then everything up to the newline) is consumed
  whole and runs \<open>ensureSeparator\<close> before the line advances. The input backtick, block,
  backtick, space, x, newline yields Identifier \<open>x\<close> and a Separator.
\<close>

theorem comments_and_separators:
  "(\<not> inStringLiteral s \<and> n \<noteq> backtick \<and> backtick \<notin> set body \<longrightarrow>
      snd (step e s backtick (n # body @ backtick # rest)) = rest
      \<and> tokens (fst (step e s backtick (n # body @ backtick # rest))) = tokens s
      \<and> lastKind (fst (step e s backtick (n # body @ backtick # rest))) = lastKind s)
   \<and> (\<not> inStringLiteral s \<and> newline \<notin> set body \<longrightarrow>
      step e s backtick (backtick # body @ newline # rest) =
        ((ensureSeparator e s)\<lparr>lineNo := lineNo (ensureSeparator e s) + 1, colNo := 0\<rparr>, rest))
   \<and> map located (tokens (Tokenize e (backtick # runes ''block'' @ backtick # runes '' x'' @ [newline]))) =
       [(Identifier, runes ''x'', 1, 8), (Separator, [], 1, 9)]"
proof (intro conjI impI)
  let ?r = "step e s backtick (n # body @ backtick # rest)"
  assume a: "\<not> inStringLiteral s \<and> n \<noteq> backtick \<and> backtick \<notin> set body"
  then have r: "?r = blockComment s (body @ backtick # rest)"
    by (simp add: step_def)
  from a r show "snd ?r = rest" by (simp add: blockComment_closed)
  obtain l k where f: "fst ?r = s\<lparr>lineNo := l, colNo := k\<rparr>"
    unfolding r using blockComment_fields by blast
  show "tokens (fst ?r) = tokens s" by (simp add: f)
  show "lastKind (fst ?r) = lastKind s" by (simp add: f)
next
  assume "\<not> inStringLiteral s \<and> newline \<notin> set body"
  then show "step e s backtick (backtick # body @ newline # rest) =
        ((ensureSeparator e s)\<lparr>lineNo := lineNo (ensureSeparator e s) + 1, colNo := 0\<rparr>, rest)"
    by (simp add: step_def Let_def skipLine_upto_newline)
next
  show "map located (tokens (Tokenize e (backtick # runes ''block'' @ backtick # runes '' x'' @ [newline]))) =
       [(Identifier, runes ''x'', 1, 8), (Separator, [], 1, 9)]"
    by (simp add: lexer_eval)
qed


theorem comments_and_separators_witness:
  "\<not> inStringLiteral initial \<and> (98::nat) \<noteq> backtick \<and> backtick \<notin> set (runes ''lock'')
   \<and> snd (step sampleEnv initial backtick (98 # runes ''lock'' @ backtick # runes '' x'')) = runes '' x''
   \<and> tokens (fst (step sampleEnv initial backtick (98 # runes ''lock'' @ backtick # runes '' x''))) =
       tokens initial
   \<and> newline \<notin> set (runes ''c'')
   \<and> step sampleEnv initial backtick (backtick # runes ''c'' @ newline # runes ''x'') =
       ((ensureSeparator sampleEnv initial)\<lparr>lineNo := lineNo (ensureSeparator sampleEnv initial) + 1,
          colNo := 0\<rparr>, runes ''x'')"
  using comments_and_separators [where s = initial and n = 98 and body = "runes ''lock''"
          and rest = "runes '' x''" and e = sampleEnv]
        comments_and_separators [where s = initial and body = "runes ''c''"
          and rest = "runes ''x''" and e = sampleEnv]
  by (simp add: runes_def initial_def)

subsection \<open>Input that ends after a colon, an equals sign or a minus\<close>

text \<open>
  C10. Outside a string literal, when the input ends right after \<open>:\<close>, \<open>=\<close> or \<open>-\<close> the read of
  the next rune fails and the case is left with nothing emitted and nothing changed; the
  loop then ends with the column advanced, and only the final \<open>ensureSeparator\<close> runs. The
  input \<open>a=\<close> yields Identifier \<open>a\<close> and a Separator, with no EqualOp.
\<close>

theorem operator_at_end_of_input:
  "(\<not> inStringLiteral s \<and> c \<in> {of_char CHR '':'', of_char CHR ''='', of_char CHR ''-''} \<longrightarrow>
      step e s c [] = (s, []) \<and> mainLoop e s [c] = s\<lparr>colNo := colNo s + 1\<rparr>
      \<and> Tokenize e [c] = ensureSeparator e (initial\<lparr>colNo := 2\<rparr>))
   \<and> map located (tokens (Tokenize e (runes ''a=''))) =
       [(Identifier, runes ''a'', 1, 2), (Separator, [], 1, 3)]"
proof (intro conjI impI)
  assume a: "\<not> inStringLiteral s \<and> c \<in> {of_char CHR '':'', of_char CHR ''='', of_char CHR ''-''}"
  then show st: "step e s c [] = (s, [])"
    by (auto simp: step_def IsSpace_def)
  then show "mainLoop e s [c] = s\<lparr>colNo := colNo s + 1\<rparr>"
    by simp
  from a show "Tokenize e [c] = ensureSeparator e (initial\<lparr>colNo := 2\<rparr>)"
    by (auto simp: Tokenize_def step_def IsSpace_def initial_def runes_def)
next
  show "map located (tokens (Tokenize e (runes ''a=''))) =
       [(Identifier, runes ''a'', 1, 2), (Separator, [], 1, 3)]"
    by (simp add: lexer_eval)
qed

theorem operator_at_end_of_input_witness:
  "\<not> inStringLiteral initial
   \<and> (of_char CHR ''='' :: rune) \<in> {of_char CHR '':'', of_char CHR ''='', of_char CHR ''-''}
   \<and> step sampleEnv initial (of_char CHR ''='') [] = (initial, [])
   \<and> mainLoop sampleEnv initial [of_char CHR ''=''] = initial\<lparr>colNo := colNo initial + 1\<rparr>
   \<and> tokens (Tokenize sampleEnv [of_char CHR ''='']) = []"
  using operator_at_end_of_input [where s = initial and c = "of_char CHR ''=''" and e = sampleEnv]
  by (simp add: lexer_eval)

subsection \<open>The dot\<close>

text \<open>
  C5. Outside a string literal, on reading \<open>.\<close> the lexer emits AccessorOp, with
  \<open>commitChar\<close> and so after committing a pending \<open>buf\<close>, when \<open>buf\<close> is empty or holds a
  rune that is not a digit; when \<open>buf\<close> is not empty and all digits it appends the dot to
  \<open>buf\<close>. With the float parser reading \<open>1.2\<close> and \<open>3\<close> as these numbers, the input \<open>1.2.3\<close>
  yields NumberLiteral 1.2, AccessorOp, NumberLiteral 3 and the trailing Separator.
\<close>

theorem dot_accessor_or_fraction:
  "(\<not> inStringLiteral s \<longrightarrow>
      step e s (of_char CHR ''.'') rest =
        (if buf s = [] \<or> (\<exists>d \<in> set (buf s). \<not> IsDigit e d)
         then (simpleCommit e \<lparr>kind = AccessorOp, str = [], num = 0, line = lineNo s, col = colNo s\<rparr>
                 (commitClear e s), rest)
         else (s\<lparr>buf := buf s @ [of_char CHR ''.'']\<rparr>, rest)))
   \<and> (ParseFloat e (runes ''1.2'') = (0x3FF3333333333333, None)
        \<and> ParseFloat e (runes ''3'') = (0x4008000000000000, None) \<longrightarrow>
      map content (tokens (Tokenize e (runes ''1.2.3''))) =
        [(NumberLiteral, [], 0x3FF3333333333333), (AccessorOp, [], 0),
         (NumberLiteral, [], 0x4008000000000000), (Separator, [], 0)])"
proof (intro conjI impI)
  assume "\<not> inStringLiteral s"
  then show "step e s (of_char CHR ''.'') rest =
        (if buf s = [] \<or> (\<exists>d \<in> set (buf s). \<not> IsDigit e d)
         then (simpleCommit e \<lparr>kind = AccessorOp, str = [], num = 0, line = lineNo s, col = colNo s\<rparr>
                 (commitClear e s), rest)
         else (s\<lparr>buf := buf s @ [of_char CHR ''.'']\<rparr>, rest))"
    by (auto simp: step_def IsSpace_def commitChar_def commit_def list_ex_iff)
next
  assume "ParseFloat e (runes ''1.2'') = (0x3FF3333333333333, None)
        \<and> ParseFloat e (runes ''3'') = (0x4008000000000000, None)"
  then show "map content (tokens (Tokenize e (runes ''1.2.3''))) =
        [(NumberLiteral, [], 0x3FF3333333333333), (AccessorOp, [], 0),
         (NumberLiteral, [], 0x4008000000000000), (Separator, [], 0)]"
    by (simp add: lexer_eval)
qed

theorem dot_accessor_or_fraction_witness:
  "\<not> inStringLiteral (initial\<lparr>buf := runes ''1''\<rparr>)
   \<and> step sampleEnv (initial\<lparr>buf := runes ''1''\<rparr>) (of_char CHR ''.'') [] =
       (initial\<lparr>buf := runes ''1.''\<rparr>, [])
   \<and> tokens (fst (step sampleEnv (initial\<lparr>buf := runes ''x''\<rparr>) (of_char CHR ''.'') [])) =
       [\<lparr>kind = Identifier, str = runes ''x'', num = 0, line = 1, col = 0\<rparr>,
        \<lparr>kind = AccessorOp, str = [], num = 0, line = 1, col = 1\<rparr>]
   \<and> ParseFloat sampleEnv (runes ''1.2'') = (0x3FF3333333333333, None)
   \<and> ParseFloat sampleEnv (runes ''3'') = (0x4008000000000000, None)
   \<and> map content (tokens (Tokenize sampleEnv (runes ''1.2.3''))) =
        [(NumberLiteral, [], 0x3FF3333333333333), (AccessorOp, [], 0),
         (NumberLiteral, [], 0x4008000000000000), (Separator, [], 0)]"
  using dot_accessor_or_fraction [where s = "initial\<lparr>buf := runes ''1''\<rparr>" and e = sampleEnv and rest = "[]"]
        dot_accessor_or_fraction [where s = "initial\<lparr>buf := runes ''x''\<rparr>" and e = sampleEnv and rest = "[]"]
  by (simp add: lexer_eval sampleEnv_def)

subsection \<open>Token positions\<close>

text \<open>
  C4. The spec says that every token's position is that of a rune of the input and that
  positions never decrease along the stream. The input \<open>a:b\<close> has three runes, all on
  line 1. The lexer advances the column for the rune it reads after the colon and then
  pushes that rune back, so it reports the identifier \<open>a\<close> (column 1) at column 2, the
  identifier \<open>b\<close> (column 3) at column 4 and the last Separator at column 5: two positions
  that no rune of the input has. On the input a, quote, b, c, quote the pending identifier
  is flushed only when the string closes and is reported at column 4, before the
  StringLiteral reported at column 2: the positions decrease.
\<close>

theorem positions_at_failing_inputs:
  "map located (tokens (Tokenize e (runes ''a:b''))) =
     [(Identifier, runes ''a'', 1, 2), (Separator, [], 1, 3), (KeyValueSeparator, [], 1, 3),
      (Identifier, runes ''b'', 1, 4), (Separator, [], 1, 5)]
   \<and> runePositions 1 1 (runes ''a:b'') = [(1, 1), (1, 2), (1, 3)]
   \<and> \<not> list_all (pointsAtRune (runes ''a:b'')) (tokens (Tokenize e (runes ''a:b'')))
   \<and> map located (tokens (Tokenize e (runes ''a'' @ quote # runes ''bc'' @ [quote]))) =
     [(Identifier, runes ''a'', 1, 4), (StringLiteral, runes ''bc'', 1, 2), (Separator, [], 1, 6)]
   \<and> \<not> nondecreasing (positions (tokens (Tokenize e (runes ''a'' @ quote # runes ''bc'' @ [quote]))))"
  by (simp add: lexer_eval pointsAtRune_def positions_def)

subsection \<open>The pending buffer and string literals\<close>

lemma commitClear_buf: "buf (commitClear e s) = []"
  by (auto simp: commitClear_def simpleCommitChar_def simpleCommit_def LogErr_def LogSafeErr_def
        Let_def split: list.splits option.splits prod.splits)

lemma commitClear_idle: "buf s = [] \<Longrightarrow> commitClear e s = s"
  by (simp add: commitClear_def)










subsection \<open>Consecutive separators\<close>

lemma sepPairs_snoc:
  "sepPairs (p # ks @ [k]) =
     sepPairs (p # ks) + (if last (p # ks) = Separator \<and> k = Separator then 1 else 0)"
  by (induction ks arbitrary: p) auto

lemma sepPairs_le_virtual: "sepPairs ks \<le> sepPairs (Separator # ks)"
  by (cases ks) auto

lemma sepBound_mono: "sepBound n s \<Longrightarrow> n \<le> m \<Longrightarrow> sepBound m s"
  by (simp add: sepBound_def)

lemma sepBound_cong:
  "tokens s' = tokens s \<Longrightarrow> lastKind s' = lastKind s \<Longrightarrow> sepBound n s' = sepBound n s"
  by (simp add: sepBound_def)

lemma sepBound_simpleCommit:
  "sepBound n s \<Longrightarrow> kind tok \<noteq> Separator \<or> lastKind s \<noteq> Separator \<Longrightarrow>
   sepBound n (simpleCommit e tok s)"
  by (auto simp: sepBound_def simpleCommit_def sepPairs_snoc simp del: sepPairs.simps)

lemma sepBound_simpleCommit_Suc: "sepBound n s \<Longrightarrow> sepBound (Suc n) (simpleCommit e tok s)"
  by (auto simp: sepBound_def simpleCommit_def sepPairs_snoc simp del: sepPairs.simps)

lemma sepBound_LogErr: "sepBound n (LogErr r m s) = sepBound n s"
  by (simp add: sepBound_def LogErr_def)

lemma sepBound_LogSafeErr: "sepBound n (LogSafeErr r m s) = sepBound n s"
  by (simp add: sepBound_def LogSafeErr_def)

lemma sepBound_buf: "sepBound n (s\<lparr>buf := b\<rparr>) = sepBound n s"
  by (simp add: sepBound_def)

lemma sepBound_commitClear: "sepBound n s \<Longrightarrow> sepBound n (commitClear e s)"
  by (auto simp: commitClear_def simpleCommitChar_def Let_def sepBound_LogErr sepBound_LogSafeErr
        sepBound_buf split: list.splits option.splits prod.splits
        intro!: sepBound_simpleCommit)

lemma sepBound_commitChar:
  "sepBound n s \<Longrightarrow> k \<noteq> Separator \<Longrightarrow> sepBound n (commitChar e k s)"
  by (simp add: commitChar_def commit_def sepBound_simpleCommit sepBound_commitClear)

lemma sepBound_commit:
  "sepBound n s \<Longrightarrow> kind tok \<noteq> Separator \<Longrightarrow> sepBound n (commit e tok s)"
  by (simp add: commit_def sepBound_simpleCommit sepBound_commitClear)

lemma sepBound_commitChar_Suc: "sepBound n s \<Longrightarrow> sepBound (Suc n) (commitChar e k s)"
  by (simp add: commitChar_def commit_def sepBound_simpleCommit_Suc sepBound_commitClear)

lemma sepBound_ensureSeparator: "sepBound n s \<Longrightarrow> sepBound n (ensureSeparator e s)"
proof -
  assume a: "sepBound n s"
  let ?s1 = "commitClear e s"
  have b: "sepBound n ?s1" using a by (rule sepBound_commitClear)
  show ?thesis
  proof (cases "continuation (lastKind ?s1)")
    case True
    with b show ?thesis by (simp add: ensureSeparator_def)
  next
    case False
    then have "lastKind ?s1 \<noteq> Separator" by (auto simp: continuation_def)
    moreover have "commitClear e ?s1 = ?s1" by (simp add: commitClear_idle commitClear_buf)
    ultimately show ?thesis using b False
      by (simp add: ensureSeparator_def commitChar_def commit_def sepBound_simpleCommit Let_def)
  qed
qed


lemma skipLine_count: "count_list (skipLine cs) x \<le> count_list cs x"
  by (induction cs) (auto simp: le_SucI)

lemma blockComment_count: "count_list (snd (blockComment s cs)) x \<le> count_list cs x"
  by (induction cs arbitrary: s) (auto simp: Let_def le_SucI)

lemma sepBound_blockComment: "sepBound n (fst (blockComment s cs)) = sepBound n s"
proof -
  obtain l k where "fst (blockComment s cs) = s\<lparr>lineNo := l, colNo := k\<rparr>"
    using blockComment_fields by blast
  then show ?thesis by (simp add: sepBound_def)
qed

lemma sepBound_update [simp]:
  "sepBound n (s\<lparr>buf := b\<rparr>) = sepBound n s"
  "sepBound n (s\<lparr>strbuf := b\<rparr>) = sepBound n s"
  "sepBound n (s\<lparr>strbufStartLine := i\<rparr>) = sepBound n s"
  "sepBound n (s\<lparr>strbufStartCol := i\<rparr>) = sepBound n s"
  "sepBound n (s\<lparr>lineNo := i\<rparr>) = sepBound n s"
  "sepBound n (s\<lparr>colNo := i\<rparr>) = sepBound n s"
  "sepBound n (s\<lparr>inStringLiteral := q\<rparr>) = sepBound n s"
  by (simp_all add: sepBound_def)

lemma snd_step_count: "count_list (snd (step e s char rest)) x \<le> count_list rest x"
  using skipLine_count [of "tl rest" x] blockComment_count [of s "tl rest" x]
  by (auto simp: step_def Let_def le_SucI split: list.splits)

lemma sepBound_step:
  assumes "sepBound n s"
  shows "sepBound (n + (if char = comma then 1 else 0)) (fst (step e s char rest))"
proof (cases "char = comma")
  case True
  have "sepBound (Suc n) (fst (step e s char rest))"
    using assms True
    by (auto simp: step_def IsSpace_def sepBound_commitChar_Suc sepBound_mono)
  with True show ?thesis by simp
next
  case False
  have "sepBound n (fst (step e s char rest))"
    using assms False
    by (auto simp: step_def Let_def sepBound_commitChar sepBound_commit sepBound_ensureSeparator
          sepBound_commitClear sepBound_blockComment split: list.splits)
  with False show ?thesis by simp
qed

lemma sepBound_mainLoop:
  "sepBound n s \<Longrightarrow> sepBound (n + count_list input comma) (mainLoop e s input)"
proof (induction e s input arbitrary: n rule: mainLoop.induct)
  case (1 e s)
  then show ?case by simp
next
  case (2 e s char rest)
  obtain s1 rest1 where st: "step e s char rest = (s1, rest1)" by (cases "step e s char rest")
  let ?k = "if char = comma then 1 else 0"
  have b: "sepBound (n + ?k) s1"
    using sepBound_step [OF "2.prems", of char e rest] st by simp
  have c: "count_list rest1 comma \<le> count_list rest comma"
    using snd_step_count [of e s char rest comma] st by simp
  have "sepBound (n + ?k + count_list rest1 comma) (mainLoop e (s1\<lparr>colNo := colNo s1 + 1\<rparr>) rest1)"
    using "2.IH" [OF st [symmetric], of "n + ?k"] b by simp
  then have "sepBound (n + count_list (char # rest) comma) (mainLoop e (s1\<lparr>colNo := colNo s1 + 1\<rparr>) rest1)"
    using c by (auto elim!: sepBound_mono)
  then show ?case using st by simp
qed

lemma sepPairs_zero:
  "(sepPairs ks = 0) = (\<nexists>xs ys. ks = xs @ Separator # Separator # ys)"
proof (induction ks rule: sepPairs.induct)
  case (1 a b ks)
  have "(\<exists>xs ys. a # b # ks = xs @ Separator # Separator # ys) =
        ((a = Separator \<and> b = Separator) \<or> (\<exists>xs ys. b # ks = xs @ Separator # Separator # ys))"
    by (auto simp: Cons_eq_append_conv)
  with 1 show ?case by auto
qed (auto simp: Cons_eq_append_conv)

lemma sepBound_Tokenize: "sepBound (count_list input comma) (Tokenize e input)"
proof -
  have i: "sepBound 0 initial" "sepBound 0 (initial\<lparr>lineNo := lineNo initial + 1\<rparr>)"
    by (simp_all add: sepBound_def initial_def)
  have a: "sepBound (count_list input comma) (ensureSeparator e (mainLoop e initial input))"
    using sepBound_mainLoop [OF i(1), of input e] by (simp add: sepBound_ensureSeparator)
  have "sepBound (count_list (skipLine input) comma)
          (ensureSeparator e (mainLoop e (initial\<lparr>lineNo := lineNo initial + 1\<rparr>) (skipLine input)))"
    using sepBound_mainLoop [OF i(2), of "skipLine input" e] by (simp add: sepBound_ensureSeparator)
  then have b: "sepBound (count_list input comma)
          (ensureSeparator e (mainLoop e (initial\<lparr>lineNo := lineNo initial + 1\<rparr>) (skipLine input)))"
    using skipLine_count [of input comma] by (rule sepBound_mono)
  show ?thesis using a b by (simp add: Tokenize_def)
qed

lemma quiet_refl: "lastKindOK s \<Longrightarrow> quiet s s"
  by (simp add: quiet_def noNewPair_def)

lemma quiet_update [simp]:
  "quiet s (s'\<lparr>buf := b\<rparr>) = quiet s s'"
  "quiet s (s'\<lparr>strbuf := b\<rparr>) = quiet s s'"
  "quiet s (s'\<lparr>strbufStartLine := i\<rparr>) = quiet s s'"
  "quiet s (s'\<lparr>strbufStartCol := i\<rparr>) = quiet s s'"
  "quiet s (s'\<lparr>lineNo := i\<rparr>) = quiet s s'"
  "quiet s (s'\<lparr>colNo := i\<rparr>) = quiet s s'"
  "quiet s (s'\<lparr>inStringLiteral := q\<rparr>) = quiet s s'"
  by (simp_all add: quiet_def noNewPair_def lastKindOK_def)

lemma quiet_LogErr [simp]: "quiet s (LogErr r m s') = quiet s s'"
  by (simp add: quiet_def noNewPair_def lastKindOK_def LogErr_def)

lemma quiet_LogSafeErr [simp]: "quiet s (LogSafeErr r m s') = quiet s s'"
  by (simp add: quiet_def noNewPair_def lastKindOK_def LogSafeErr_def)

lemma quiet_simpleCommit:
  "quiet s s' \<Longrightarrow> kind tok \<noteq> Separator \<or> lastKind s' \<noteq> Separator \<Longrightarrow>
   quiet s (simpleCommit e tok s')"
  by (auto simp: quiet_def noNewPair_def lastKindOK_def simpleCommit_def sepPairs_snoc
        simp del: sepPairs.simps)

lemma quiet_commitClear: "quiet s s' \<Longrightarrow> quiet s (commitClear e s')"
  by (auto simp: commitClear_def simpleCommitChar_def Let_def
        split: list.splits option.splits prod.splits intro!: quiet_simpleCommit)

lemma quiet_commit: "quiet s s' \<Longrightarrow> kind tok \<noteq> Separator \<Longrightarrow> quiet s (commit e tok s')"
  by (simp add: commit_def quiet_simpleCommit quiet_commitClear)

lemma quiet_commitChar: "quiet s s' \<Longrightarrow> k \<noteq> Separator \<Longrightarrow> quiet s (commitChar e k s')"
  by (simp add: commitChar_def quiet_commit)

lemma quiet_ensureSeparator: "quiet s s' \<Longrightarrow> quiet s (ensureSeparator e s')"
proof -
  assume a: "quiet s s'"
  let ?s1 = "commitClear e s'"
  have b: "quiet s ?s1" using a by (rule quiet_commitClear)
  show ?thesis
  proof (cases "continuation (lastKind ?s1)")
    case True
    with b show ?thesis by (simp add: ensureSeparator_def)
  next
    case False
    then have "lastKind ?s1 \<noteq> Separator" by (auto simp: continuation_def)
    moreover have "commitClear e ?s1 = ?s1" by (simp add: commitClear_idle commitClear_buf)
    ultimately show ?thesis using b False
      by (simp add: ensureSeparator_def commitChar_def commit_def quiet_simpleCommit Let_def)
  qed
qed

lemma quiet_blockComment: "quiet s (fst (blockComment s' cs)) = quiet s s'"
proof -
  obtain l k where "fst (blockComment s' cs) = s'\<lparr>lineNo := l, colNo := k\<rparr>"
    using blockComment_fields by blast
  then show ?thesis by simp
qed

lemma quiet_step:
  assumes "lastKindOK s" and "char \<noteq> comma \<or> inStringLiteral s"
  shows "quiet s (fst (step e s char rest))"
proof -
  have q: "quiet s s" using assms(1) by (rule quiet_refl)
  show ?thesis
    using q assms(2)
    by (auto simp: step_def Let_def quiet_commitChar quiet_commit quiet_ensureSeparator
          quiet_commitClear quiet_blockComment split: list.splits)
qed

lemma lastKindOK_sepBound: "lastKindOK s = sepBound (sepPairs (Separator # map kind (tokens s))) s"
  by (simp add: lastKindOK_def sepBound_def)

lemma sepBound_lastKindOK: "sepBound n s \<Longrightarrow> lastKindOK s"
  by (simp add: lastKindOK_def sepBound_def)

lemma lastKindOK_step: "lastKindOK s \<Longrightarrow> lastKindOK (fst (step e s char rest))"
  using sepBound_step [of "sepPairs (Separator # map kind (tokens s))" s char e rest]
  by (auto simp: lastKindOK_sepBound [of s] intro: sepBound_lastKindOK)

lemma lastKindOK_mainLoop: "lastKindOK s \<Longrightarrow> lastKindOK (mainLoop e s input)"
  using sepBound_mainLoop [of "sepPairs (Separator # map kind (tokens s))" s input e]
  by (auto simp: lastKindOK_sepBound [of s] intro: sepBound_lastKindOK)

lemma comma_step:
  "\<not> inStringLiteral s \<Longrightarrow>
   step e s comma rest =
     (simpleCommit e \<lparr>kind = Separator, str = [], num = 0, line = lineNo s, col = colNo s\<rparr>
        (commitClear e s), rest)"
  by (simp add: step_def IsSpace_def commitChar_def commit_def)

text \<open>
  C2. The spec says that no two consecutive Separators are ever emitted. A comma is
  committed as a Separator whatever the last token was, so two commas give two Separators
  in a row.
\<close>

theorem two_commas_two_separators:
  "map kind (tokens (Tokenize sampleEnv (runes '',,''))) = [Separator, Separator]
   \<and> sepPairs (map kind (tokens (Tokenize sampleEnv (runes '',,'')))) = 1"
  by (simp add: lexer_eval)

text \<open>
  C2, amended. A Separator directly follows a Separator only where a comma put it.
  For every input the number of such places in the emitted stream is at most the number
  of commas in the input, and an input with no comma never yields two consecutive
  Separators. At every state of a scan \<open>lastKind\<close> is the kind of the last token sent
  (Separator before the first): this holds at the start and is kept by every iteration of
  the main loop, by the loop as a whole and by \<open>ensureSeparator\<close>. From such a state
  \<open>ensureSeparator\<close> (newline, closing bracket, key-value colon, single-line comment,
  final flush) only appends tokens and never puts a Separator directly after a Separator,
  and neither does an iteration on any rune but a comma read outside a string literal.
  The iteration on such a comma is exactly: flush \<open>buf\<close>, then send a Separator.
\<close>

theorem consecutive_separators_need_commas:
  "sepPairs (map kind (tokens (Tokenize e input))) \<le> count_list input comma
   \<and> (comma \<notin> set input \<longrightarrow>
        (\<nexists>xs ys. map kind (tokens (Tokenize e input)) = xs @ Separator # Separator # ys))
   \<and> lastKindOK initial
   \<and> lastKindOK (Tokenize e input)
   \<and> (lastKindOK s \<longrightarrow>
        lastKindOK (fst (step e s char rest)) \<and> lastKindOK (mainLoop e s input)
        \<and> lastKindOK (ensureSeparator e s) \<and> noNewPair s (ensureSeparator e s))
   \<and> (lastKindOK s \<and> (char \<noteq> comma \<or> inStringLiteral s) \<longrightarrow>
        noNewPair s (fst (step e s char rest)))
   \<and> (\<not> inStringLiteral s \<longrightarrow>
        step e s comma rest =
          (simpleCommit e \<lparr>kind = Separator, str = [], num = 0, line = lineNo s, col = colNo s\<rparr>
             (commitClear e s), rest))"
proof (intro conjI impI)
  have "sepPairs (Separator # map kind (tokens (Tokenize e input))) \<le> count_list input comma"
    using sepBound_Tokenize [of input e] by (simp add: sepBound_def)
  with sepPairs_le_virtual [of "map kind (tokens (Tokenize e input))"]
  show b: "sepPairs (map kind (tokens (Tokenize e input))) \<le> count_list input comma"
    by linarith
  show "lastKindOK initial" by (simp add: lastKindOK_def initial_def)
  show "lastKindOK (Tokenize e input)"
    using sepBound_Tokenize [of input e] by (rule sepBound_lastKindOK)
  show "step e s comma rest =
          (simpleCommit e \<lparr>kind = Separator, str = [], num = 0, line = lineNo s, col = colNo s\<rparr>
             (commitClear e s), rest)" if "\<not> inStringLiteral s"
    using that by (rule comma_step)
  show "noNewPair s (fst (step e s char rest))"
    if "lastKindOK s \<and> (char \<noteq> comma \<or> inStringLiteral s)"
    using quiet_step [of s char e rest] that by (simp add: quiet_def)
  assume "comma \<notin> set input"
  then have "count_list input comma = 0" by simp
  with b have "sepPairs (map kind (tokens (Tokenize e input))) = 0" by simp
  then show "\<nexists>xs ys. map kind (tokens (Tokenize e input)) = xs @ Separator # Separator # ys"
    by (simp add: sepPairs_zero)
next
  assume a: "lastKindOK s"
  then show "lastKindOK (fst (step e s char rest))" by (rule lastKindOK_step)
  from a show "lastKindOK (mainLoop e s input)" by (rule lastKindOK_mainLoop)
  have "quiet s (ensureSeparator e s)"
    using a by (intro quiet_ensureSeparator quiet_refl)
  then show "lastKindOK (ensureSeparator e s)" "noNewPair s (ensureSeparator e s)"
    by (simp_all add: quiet_def)
qed

theorem consecutive_separators_need_commas_witness:
  "comma \<notin> set (runes ''a'' @ newline # newline # runes ''b'')
   \<and> (\<nexists>xs ys. map kind (tokens (Tokenize sampleEnv (runes ''a'' @ newline # newline # runes ''b''))) =
         xs @ Separator # Separator # ys)
   \<and> map kind (tokens (Tokenize sampleEnv (runes ''a'' @ newline # newline # runes ''b''))) =
       [Identifier, Separator, Identifier, Separator]
   \<and> sepPairs (map kind (tokens (Tokenize sampleEnv (runes '',,'')))) \<le> count_list (runes '',,'') comma
   \<and> lastKindOK (mainLoop sampleEnv initial (runes ''a,''))
   \<and> map kind (tokens (mainLoop sampleEnv initial (runes ''a,''))) = [Identifier, Separator]
   \<and> noNewPair (mainLoop sampleEnv initial (runes ''a,''))
        (ensureSeparator sampleEnv (mainLoop sampleEnv initial (runes ''a,'')))
   \<and> tokens (ensureSeparator sampleEnv (mainLoop sampleEnv initial (runes ''a,''))) =
       tokens (mainLoop sampleEnv initial (runes ''a,''))
   \<and> newline \<noteq> comma
   \<and> noNewPair (mainLoop sampleEnv initial (runes ''a,''))
        (fst (step sampleEnv (mainLoop sampleEnv initial (runes ''a,'')) newline []))
   \<and> \<not> inStringLiteral (mainLoop sampleEnv initial (runes ''a,''))
   \<and> map kind (tokens (fst (step sampleEnv (mainLoop sampleEnv initial (runes ''a,'')) comma []))) =
       [Identifier, Separator, Separator]"
proof -
  let ?i = "runes ''a'' @ newline # newline # runes ''b''"
  let ?s = "mainLoop sampleEnv initial (runes ''a,'')"
  note t = consecutive_separators_need_commas
  have a: "comma \<notin> set ?i" by (simp add: runes_def)
  from t [of sampleEnv ?i, THEN conjunct2, THEN conjunct1, THEN mp, OF a]
  have b: "\<nexists>xs ys. map kind (tokens (Tokenize sampleEnv ?i)) = xs @ Separator # Separator # ys" .
  have c: "map kind (tokens (Tokenize sampleEnv ?i)) = [Identifier, Separator, Identifier, Separator]"
    by (simp add: lexer_eval)
  have d: "sepPairs (map kind (tokens (Tokenize sampleEnv (runes '',,'')))) \<le> count_list (runes '',,'') comma"
    using t [of sampleEnv "runes '',,''"] by blast
  have i0: "lastKindOK initial" using t by blast
  from t [where s = initial and e = sampleEnv and input = "runes ''a,''", THEN conjunct2,
          THEN conjunct2, THEN conjunct2, THEN conjunct2, THEN conjunct1, THEN mp, OF i0]
  have s1: "lastKindOK ?s" by blast
  from t [where s = ?s and e = sampleEnv, THEN conjunct2,
          THEN conjunct2, THEN conjunct2, THEN conjunct2, THEN conjunct1, THEN mp, OF s1]
  have s2: "noNewPair ?s (ensureSeparator sampleEnv ?s)" by blast
  have n: "newline \<noteq> comma" by simp
  then have "lastKindOK ?s \<and> (newline \<noteq> comma \<or> inStringLiteral ?s)" using s1 by blast
  from t [where s = ?s and e = sampleEnv and char = newline and rest = "[]", THEN conjunct2,
          THEN conjunct2, THEN conjunct2, THEN conjunct2, THEN conjunct2, THEN conjunct1,
          THEN mp, OF this]
  have s3: "noNewPair ?s (fst (step sampleEnv ?s newline []))" .
  have ev: "map kind (tokens ?s) = [Identifier, Separator]"
    "tokens (ensureSeparator sampleEnv ?s) = tokens ?s"
    "\<not> inStringLiteral ?s"
    "map kind (tokens (fst (step sampleEnv ?s comma []))) = [Identifier, Separator, Separator]"
    by (simp_all add: lexer_eval)
  show ?thesis
    using a b c d s1 s2 n s3 ev by blast
qed

subsection \<open>The number-parsing error\<close>

lemma failedNumber_mono:
  "failedNumber e toks r \<Longrightarrow> set toks \<subseteq> set toks' \<Longrightarrow> failedNumber e toks' r"
  unfolding failedNumber_def by blast

lemma numberErrorsOnly_keep:
  "numberErrorsOnly e s \<Longrightarrow> diagnostics s' = diagnostics s \<Longrightarrow> halted s' = halted s \<Longrightarrow>
   set (tokens s) \<subseteq> set (tokens s') \<Longrightarrow> numberErrorsOnly e s'"
  by (auto simp: numberErrorsOnly_def list_all_iff intro: failedNumber_mono)

lemma numberErrorsOnly_update [simp]:
  "numberErrorsOnly e (s\<lparr>buf := b\<rparr>) = numberErrorsOnly e s"
  "numberErrorsOnly e (s\<lparr>strbuf := b\<rparr>) = numberErrorsOnly e s"
  "numberErrorsOnly e (s\<lparr>strbufStartLine := i\<rparr>) = numberErrorsOnly e s"
  "numberErrorsOnly e (s\<lparr>strbufStartCol := i\<rparr>) = numberErrorsOnly e s"
  "numberErrorsOnly e (s\<lparr>lineNo := i\<rparr>) = numberErrorsOnly e s"
  "numberErrorsOnly e (s\<lparr>colNo := i\<rparr>) = numberErrorsOnly e s"
  "numberErrorsOnly e (s\<lparr>inStringLiteral := q\<rparr>) = numberErrorsOnly e s"
  by (simp_all add: numberErrorsOnly_def)

lemma numberErrorsOnly_simpleCommit:
  "numberErrorsOnly e s \<Longrightarrow> numberErrorsOnly e (simpleCommit e tok s)"
  by (rule numberErrorsOnly_keep [of e s]) (auto simp: simpleCommit_def)

lemma firstByte_digit: "(48 \<le> firstByte c \<and> firstByte c \<le> 57) = (48 \<le> c \<and> c \<le> 57)"
  by (auto simp: firstByte_def)

lemma numberErrorsOnly_failure:
  assumes inv: "numberErrorsOnly e s"
    and b: "buf s = c # cs" "48 \<le> c" "c \<le> 57" "c # cs \<noteq> runes ''true''"
      "c # cs \<noteq> runes ''false''"
    and p: "ParseFloat e (c # cs) = (f, Some msg)"
  shows "numberErrorsOnly e
           (simpleCommit e
              \<lparr>kind = NumberLiteral, str = [], num = f, line = lineNo s,
                col = colNo s - len (c # cs)\<rparr>
              (if fatalError e then LogErr ErrSyntax (numberError s msg) (s\<lparr>buf := []\<rparr>)
               else LogSafeErr ErrSyntax (numberError s msg) (s\<lparr>buf := []\<rparr>)))"
proof -
  let ?tok = "\<lparr>kind = NumberLiteral, str = [], num = f, line = lineNo s,
                col = colNo s - len (c # cs)\<rparr>"
  let ?r = "(if fatalError e then Fatal else Safe) ErrSyntax (numberError s msg)"
  have new: "failedNumber e toks ?r" if "fatalError e \<or> ?tok \<in> set toks" for toks
    unfolding failedNumber_def numberError_def using b p that
    by (intro exI [of _ "lineNo s"] exI [of _ "colNo s"] exI [of _ "c # cs"] exI [of _ f]
          exI [of _ msg]) auto
  have old: "failedNumber e toks r" if "r \<in> set (diagnostics s)" "set (tokens s) \<subseteq> set toks"
    for r toks
  proof -
    from inv that(1) have "failedNumber e (tokens s) r"
      by (simp add: numberErrorsOnly_def list_all_iff)
    then show ?thesis using that(2) by (rule failedNumber_mono)
  qed
  show ?thesis
  proof (cases "fatalError e")
    case True
    have "list_all (failedNumber e (tokens s)) (diagnostics s @ [?r])"
      using old [of _ "tokens s"] new [of "tokens s"] True by (auto simp: list_all_iff)
    with True show ?thesis
      by (auto simp: numberErrorsOnly_def simpleCommit_def LogErr_def)
  next
    case False
    from inv False have nh: "\<not> halted s" by (simp add: numberErrorsOnly_def)
    have "list_all (failedNumber e (tokens s @ [?tok])) (diagnostics s @ [?r])"
      using old [of _ "tokens s @ [?tok]"] new [of "tokens s @ [?tok]"]
      by (auto simp: list_all_iff)
    with False nh show ?thesis
      by (simp add: numberErrorsOnly_def simpleCommit_def LogSafeErr_def)
  qed
qed

lemma numberErrorsOnly_commitClear:
  assumes inv: "numberErrorsOnly e s"
  shows "numberErrorsOnly e (commitClear e s)"
proof (cases "buf s")
  case Nil
  with inv show ?thesis by (simp add: commitClear_def)
next
  case (Cons c cs)
  have s1: "numberErrorsOnly e (s\<lparr>buf := []\<rparr>)" using inv by simp
  show ?thesis
  proof (cases "c # cs = runes ''true'' \<or> c # cs = runes ''false''
                 \<or> \<not> (48 \<le> firstByte c \<and> firstByte c \<le> 57)")
    case True
    with Cons s1 show ?thesis
      by (auto simp: commitClear_def Let_def simpleCommitChar_def
            intro!: numberErrorsOnly_simpleCommit)
  next
    case False
    then have d: "48 \<le> c" "c \<le> 57" "c # cs \<noteq> runes ''true''" "c # cs \<noteq> runes ''false''"
      by (auto simp: firstByte_digit)
    obtain f err where p: "ParseFloat e (c # cs) = (f, err)" by (cases "ParseFloat e (c # cs)")
    show ?thesis
    proof (cases err)
      case None
      with Cons False p s1 show ?thesis
        by (auto simp: commitClear_def Let_def intro!: numberErrorsOnly_simpleCommit)
    next
      case (Some msg)
      with p have "ParseFloat e (c # cs) = (f, Some msg)" by simp
      from numberErrorsOnly_failure [OF inv Cons d this] Cons False p Some show ?thesis
        by (simp add: commitClear_def Let_def)
    qed
  qed
qed


lemma numberErrorsOnly_commit:
  "numberErrorsOnly e s \<Longrightarrow> numberErrorsOnly e (commit e tok s)"
  by (simp add: commit_def numberErrorsOnly_commitClear numberErrorsOnly_simpleCommit)

lemma numberErrorsOnly_commitChar:
  "numberErrorsOnly e s \<Longrightarrow> numberErrorsOnly e (commitChar e k s)"
  by (simp add: commitChar_def numberErrorsOnly_commit)

lemma numberErrorsOnly_ensureSeparator:
  "numberErrorsOnly e s \<Longrightarrow> numberErrorsOnly e (ensureSeparator e s)"
  by (simp add: ensureSeparator_def Let_def numberErrorsOnly_commitClear
        numberErrorsOnly_commitChar)

lemma numberErrorsOnly_blockComment:
  "numberErrorsOnly e (fst (blockComment s cs)) = numberErrorsOnly e s"
proof -
  obtain l k where "fst (blockComment s cs) = s\<lparr>lineNo := l, colNo := k\<rparr>"
    using blockComment_fields by blast
  then show ?thesis by simp
qed

lemma numberErrorsOnly_step:
  "numberErrorsOnly e s \<Longrightarrow> numberErrorsOnly e (fst (step e s char rest))"
  by (auto simp: step_def Let_def numberErrorsOnly_commitChar numberErrorsOnly_commit
        numberErrorsOnly_ensureSeparator numberErrorsOnly_commitClear
        numberErrorsOnly_blockComment split: list.splits)

lemma numberErrorsOnly_mainLoop:
  "numberErrorsOnly e s \<Longrightarrow> numberErrorsOnly e (mainLoop e s input)"
proof (induction e s input rule: mainLoop.induct)
  case (1 e s)
  then show ?case by simp
next
  case (2 e s char rest)
  obtain s1 rest1 where st: "step e s char rest = (s1, rest1)" by (cases "step e s char rest")
  have "numberErrorsOnly e s1"
    using numberErrorsOnly_step [OF "2.prems", of char rest] st by simp
  then have "numberErrorsOnly e (mainLoop e (s1\<lparr>colNo := colNo s1 + 1\<rparr>) rest1)"
    using "2.IH" [OF st [symmetric]] by simp
  then show ?case using st by simp
qed

lemma numberErrorsOnly_Tokenize: "numberErrorsOnly e (Tokenize e input)"
proof -
  have "numberErrorsOnly e initial" "numberErrorsOnly e (initial\<lparr>lineNo := lineNo initial + 1\<rparr>)"
    by (simp_all add: numberErrorsOnly_def initial_def)
  then show ?thesis
    by (simp add: Tokenize_def numberErrorsOnly_mainLoop numberErrorsOnly_ensureSeparator)
qed

lemma commitClear_silent:
  assumes "buf s = [] \<or> buf s = runes ''true'' \<or> buf s = runes ''false''
           \<or> \<not> (48 \<le> hd (buf s) \<and> hd (buf s) \<le> 57) \<or> snd (ParseFloat e (buf s)) = None"
  shows "diagnostics (commitClear e s) = diagnostics s \<and> halted (commitClear e s) = halted s"
proof (cases "buf s")
  case Nil
  then show ?thesis by (simp add: commitClear_def)
next
  case (Cons c cs)
  show ?thesis
  proof (cases "c # cs = runes ''true'' \<or> c # cs = runes ''false''
                 \<or> \<not> (48 \<le> firstByte c \<and> firstByte c \<le> 57)")
    case True
    with Cons show ?thesis
      by (auto simp: commitClear_def Let_def simpleCommitChar_def simpleCommit_def)
  next
    case False
    with assms Cons have "snd (ParseFloat e (c # cs)) = None"
      by (auto simp: firstByte_digit)
    then obtain f where "ParseFloat e (c # cs) = (f, None)"
      by (cases "ParseFloat e (c # cs)") auto
    with Cons False show ?thesis
      by (auto simp: commitClear_def Let_def simpleCommit_def)
  qed
qed

text \<open>
  C6. When \<open>commitClear\<close> finds a \<open>buf\<close> that starts with a digit and the float parser
  rejects it, and \<open>fatalError\<close> is false, the safe log receives the syntax error
  \<open>parsing error in number at L:C, <parser message>\<close> with the current line and column,
  the process is not halted, \<open>buf\<close> is cleared and a NumberLiteral carrying the value that
  the failed parse returned is emitted. In every other case (an empty \<open>buf\<close>, \<open>true\<close>, \<open>false\<close>,
  a \<open>buf\<close> that does not start with a digit, a number that parses) \<open>commitClear\<close> reports
  nothing and halts nothing. Without \<open>fatalError\<close> no scan is ever halted. Every report of
  every scan is this error for a digit-initial text that the float parser rejected, with
  the parser's own message, and without \<open>fatalError\<close> the NumberLiteral of that text is in
  the stream; so a scan in which the float parser rejects no digit-initial text reports
  nothing at all.
\<close>

theorem number_parse_failure_is_reported:
  "(buf s = c # cs \<and> 48 \<le> c \<and> c \<le> 57 \<and> ParseFloat e (buf s) = (f, Some msg)
      \<and> \<not> fatalError e \<and> \<not> halted s \<longrightarrow>
      commitClear e s =
        s\<lparr>buf := [], lastKind := NumberLiteral,
          tokens := tokens s @
            [\<lparr>kind = NumberLiteral, str = [], num = f, line = lineNo s,
              col = colNo s - len (buf s)\<rparr>],
          debugLog := debugTrace e
            \<lparr>kind = NumberLiteral, str = [], num = f, line = lineNo s,
              col = colNo s - len (buf s)\<rparr> (debugLog s),
          diagnostics := diagnostics s @
            [Safe ErrSyntax (''parsing error in number at '' @ showInt (lineNo s) @ '':''
               @ showInt (colNo s) @ '', '' @ msg)]\<rparr>)
   \<and> (buf s = [] \<or> buf s = runes ''true'' \<or> buf s = runes ''false''
        \<or> \<not> (48 \<le> hd (buf s) \<and> hd (buf s) \<le> 57) \<or> snd (ParseFloat e (buf s)) = None \<longrightarrow>
      diagnostics (commitClear e s) = diagnostics s \<and> halted (commitClear e s) = halted s)
   \<and> (\<not> fatalError e \<longrightarrow> \<not> halted (Tokenize e input))
   \<and> (\<forall>r \<in> set (diagnostics (Tokenize e input)). \<exists>l c cbuf f msg.
         cbuf \<noteq> [] \<and> 48 \<le> hd cbuf \<and> hd cbuf \<le> 57
         \<and> cbuf \<noteq> runes ''true'' \<and> cbuf \<noteq> runes ''false''
         \<and> ParseFloat e cbuf = (f, Some msg)
         \<and> r = (if fatalError e then Fatal else Safe) ErrSyntax
               (''parsing error in number at '' @ showInt l @ '':'' @ showInt c @ '', '' @ msg)
         \<and> (fatalError e \<or>
              \<lparr>kind = NumberLiteral, str = [], num = f, line = l, col = c - len cbuf\<rparr>
                \<in> set (tokens (Tokenize e input))))
   \<and> ((\<forall>cbuf. cbuf \<noteq> [] \<and> 48 \<le> hd cbuf \<and> hd cbuf \<le> 57 \<longrightarrow> snd (ParseFloat e cbuf) = None) \<longrightarrow>
        diagnostics (Tokenize e input) = [])"
proof (intro conjI impI)
  assume a: "buf s = c # cs \<and> 48 \<le> c \<and> c \<le> 57 \<and> ParseFloat e (buf s) = (f, Some msg)
      \<and> \<not> fatalError e \<and> \<not> halted s"
  then have d: "48 \<le> firstByte c \<and> firstByte c \<le> 57" by (simp add: firstByte_digit)
  from a have n: "c # cs \<noteq> runes ''true''" "c # cs \<noteq> runes ''false''"
    by (auto simp: runes_def)
  from a have p: "ParseFloat e (c # cs) = (f, Some msg)" "buf s = c # cs" "\<not> fatalError e"
    "\<not> halted s" by auto
  from p d n show "commitClear e s =
        s\<lparr>buf := [], lastKind := NumberLiteral,
          tokens := tokens s @
            [\<lparr>kind = NumberLiteral, str = [], num = f, line = lineNo s,
              col = colNo s - len (buf s)\<rparr>],
          debugLog := debugTrace e
            \<lparr>kind = NumberLiteral, str = [], num = f, line = lineNo s,
              col = colNo s - len (buf s)\<rparr> (debugLog s),
          diagnostics := diagnostics s @
            [Safe ErrSyntax (''parsing error in number at '' @ showInt (lineNo s) @ '':''
               @ showInt (colNo s) @ '', '' @ msg)]\<rparr>"
    by (simp add: commitClear_def Let_def simpleCommit_def LogSafeErr_def numberError_def)
next
  assume "buf s = [] \<or> buf s = runes ''true'' \<or> buf s = runes ''false''
        \<or> \<not> (48 \<le> hd (buf s) \<and> hd (buf s) \<le> 57) \<or> snd (ParseFloat e (buf s)) = None"
  then have r: "diagnostics (commitClear e s) = diagnostics s \<and> halted (commitClear e s) = halted s"
    by (rule commitClear_silent)
  from r show "diagnostics (commitClear e s) = diagnostics s" by blast
  from r show "halted (commitClear e s) = halted s" by blast
next
  assume "\<not> fatalError e"
  then show "\<not> halted (Tokenize e input)"
    using numberErrorsOnly_Tokenize [of e input] by (simp add: numberErrorsOnly_def)
next
  show "\<forall>r \<in> set (diagnostics (Tokenize e input)). \<exists>l c cbuf f msg.
         cbuf \<noteq> [] \<and> 48 \<le> hd cbuf \<and> hd cbuf \<le> 57
         \<and> cbuf \<noteq> runes ''true'' \<and> cbuf \<noteq> runes ''false''
         \<and> ParseFloat e cbuf = (f, Some msg)
         \<and> r = (if fatalError e then Fatal else Safe) ErrSyntax
               (''parsing error in number at '' @ showInt l @ '':'' @ showInt c @ '', '' @ msg)
         \<and> (fatalError e \<or>
              \<lparr>kind = NumberLiteral, str = [], num = f, line = l, col = c - len cbuf\<rparr>
                \<in> set (tokens (Tokenize e input)))"
    using numberErrorsOnly_Tokenize [of e input]
    unfolding numberErrorsOnly_def list_all_iff failedNumber_def by blast
next
  assume ok: "\<forall>cbuf. cbuf \<noteq> [] \<and> 48 \<le> hd cbuf \<and> hd cbuf \<le> 57 \<longrightarrow> snd (ParseFloat e cbuf) = None"
  have "\<not> failedNumber e toks r" for toks r
    unfolding failedNumber_def using ok by fastforce
  then have "\<not> list_ex (failedNumber e (tokens (Tokenize e input))) (diagnostics (Tokenize e input))"
    by (simp add: list_ex_iff)
  moreover have "list_all (failedNumber e (tokens (Tokenize e input))) (diagnostics (Tokenize e input))"
    using numberErrorsOnly_Tokenize [of e input] by (simp add: numberErrorsOnly_def)
  ultimately show "diagnostics (Tokenize e input) = []"
    by (cases "diagnostics (Tokenize e input)") auto
qed

theorem number_parse_failure_is_reported_witness:
  "buf (initial\<lparr>buf := runes ''1x'', colNo := 3\<rparr>) = 49 # runes ''x''
   \<and> (48::nat) \<le> 49 \<and> (49::nat) \<le> 57
   \<and> ParseFloat sampleEnv (buf (initial\<lparr>buf := runes ''1x'', colNo := 3\<rparr>)) =
       (0, Some (''strconv.ParseFloat: parsing '' @ [CHR 0x22] @ ''1x'' @ [CHR 0x22]
                  @ '': invalid syntax''))
   \<and> \<not> fatalError sampleEnv \<and> \<not> halted (initial\<lparr>buf := runes ''1x'', colNo := 3\<rparr>)
   \<and> diagnostics (commitClear sampleEnv (initial\<lparr>buf := runes ''1x'', colNo := 3\<rparr>)) =
       [Safe ErrSyntax (''parsing error in number at 1:3, strconv.ParseFloat: parsing ''
          @ [CHR 0x22] @ ''1x'' @ [CHR 0x22] @ '': invalid syntax'')]
   \<and> \<not> (48 \<le> hd (buf (initial\<lparr>buf := runes ''x1'', colNo := 3\<rparr>))
          \<and> hd (buf (initial\<lparr>buf := runes ''x1'', colNo := 3\<rparr>)) \<le> 57)
   \<and> diagnostics (commitClear sampleEnv (initial\<lparr>buf := runes ''x1'', colNo := 3\<rparr>)) = []
   \<and> \<not> halted (Tokenize sampleEnv (runes ''1x+3''))
   \<and> diagnostics (Tokenize sampleEnv (runes ''1x+3'')) =
       [Safe ErrSyntax (''parsing error in number at 1:3, strconv.ParseFloat: parsing ''
          @ [CHR 0x22] @ ''1x'' @ [CHR 0x22] @ '': invalid syntax'')]
   \<and> map located (tokens (Tokenize sampleEnv (runes ''1x+3''))) =
       [(NumberLiteral, [], 1, 1), (AddOp, [], 1, 3), (NumberLiteral, [], 1, 4),
        (Separator, [], 1, 5)]
   \<and> map content (tokens (Tokenize sampleEnv (runes ''1x+3''))) =
       [(NumberLiteral, [], 0), (AddOp, [], 0), (NumberLiteral, [], 0x4008000000000000),
        (Separator, [], 0)]
   \<and> (\<forall>cbuf. snd (ParseFloat (sampleEnv\<lparr>ParseFloat := \<lambda>cbuf. (0, None)\<rparr>) cbuf) = None)
   \<and> diagnostics (Tokenize (sampleEnv\<lparr>ParseFloat := \<lambda>cbuf. (0, None)\<rparr>) (runes ''1x+3'')) = []"
proof -
  let ?s0 = "initial\<lparr>buf := runes ''1x'', colNo := 3\<rparr>"
  let ?s1 = "initial\<lparr>buf := runes ''x1'', colNo := 3\<rparr>"
  let ?m = "''strconv.ParseFloat: parsing '' @ [CHR 0x22] @ ''1x'' @ [CHR 0x22]
              @ '': invalid syntax''"
  let ?e2 = "sampleEnv\<lparr>ParseFloat := \<lambda>cbuf. (0, None)\<rparr>"
  have h0: "buf ?s0 = 49 # runes ''x'' \<and> (48::nat) \<le> 49 \<and> (49::nat) \<le> 57
            \<and> ParseFloat sampleEnv (buf ?s0) = (0, Some ?m)
            \<and> \<not> fatalError sampleEnv \<and> \<not> halted ?s0"
    by (simp add: sampleEnv_def initial_def runes_def)
  have c0: "diagnostics (commitClear sampleEnv ?s0) =
       [Safe ErrSyntax (''parsing error in number at 1:3, strconv.ParseFloat: parsing ''
          @ [CHR 0x22] @ ''1x'' @ [CHR 0x22] @ '': invalid syntax'')]"
    using number_parse_failure_is_reported
            [where s = ?s0 and c = 49 and cs = "runes ''x''" and e = sampleEnv and f = 0
               and msg = ?m, THEN conjunct1, THEN mp, OF h0]
    by (simp add: initial_def showInt_def showNat.simps)
  have h1: "\<not> (48 \<le> hd (buf ?s1) \<and> hd (buf ?s1) \<le> 57)"
    by (simp add: runes_def)
  then have "buf ?s1 = [] \<or> buf ?s1 = runes ''true'' \<or> buf ?s1 = runes ''false''
        \<or> \<not> (48 \<le> hd (buf ?s1) \<and> hd (buf ?s1) \<le> 57)
        \<or> snd (ParseFloat sampleEnv (buf ?s1)) = None"
    by blast
  from number_parse_failure_is_reported
         [where s = ?s1 and e = sampleEnv, THEN conjunct2, THEN conjunct1, THEN mp, OF this]
  have c1: "diagnostics (commitClear sampleEnv ?s1) = []"
    by (simp add: initial_def)
  have h2: "\<forall>cbuf. snd (ParseFloat ?e2 cbuf) = None" by simp
  then have "\<forall>cbuf. cbuf \<noteq> [] \<and> 48 \<le> hd cbuf \<and> hd cbuf \<le> 57 \<longrightarrow> snd (ParseFloat ?e2 cbuf) = None"
    by blast
  from number_parse_failure_is_reported
         [where e = ?e2 and input = "runes ''1x+3''", THEN conjunct2, THEN conjunct2,
          THEN conjunct2, THEN conjunct2, THEN mp, OF this]
  have c2: "diagnostics (Tokenize ?e2 (runes ''1x+3'')) = []" .
  have r: "\<not> halted (Tokenize sampleEnv (runes ''1x+3''))"
    "diagnostics (Tokenize sampleEnv (runes ''1x+3'')) =
       [Safe ErrSyntax (''parsing error in number at 1:3, strconv.ParseFloat: parsing ''
          @ [CHR 0x22] @ ''1x'' @ [CHR 0x22] @ '': invalid syntax'')]"
    "map located (tokens (Tokenize sampleEnv (runes ''1x+3''))) =
       [(NumberLiteral, [], 1, 1), (AddOp, [], 1, 3), (NumberLiteral, [], 1, 4),
        (Separator, [], 1, 5)]"
    "map content (tokens (Tokenize sampleEnv (runes ''1x+3''))) =
       [(NumberLiteral, [], 0), (AddOp, [], 0), (NumberLiteral, [], 0x4008000000000000),
        (Separator, [], 0)]"
    by (simp_all add: lexer_eval sampleEnv_def LogSafeErr_def LogErr_def numberError_def
          showInt_def showNat.simps)
  show ?thesis
    using h0 c0 h1 c1 h2 c2 r by blast
qed

end
